theory Spec2Isabelle
  imports Main
begin

section \<open>The direct DOM-tree mounter (src/mounter/domTree.tsx)\<close>

text \<open>
  \<^verbatim>\<open>createDomTreeMounter\<close> returns an object with \<^verbatim>\<open>mount\<close>, \<^verbatim>\<open>unmount\<close> and
  \<^verbatim>\<open>options\<close>. Its closure holds the registry \<^verbatim>\<open>confirms\<close> and the record
  \<^verbatim>\<open>callbacks\<close>. The model threads the closure, the part of the DOM the mounter
  touches and the React roots it creates through every call as one record, and writes
  every \<^verbatim>\<open>throw\<close> as the \<open>Inl\<close> branch of a sum.

  What the environment decides (the value drawn by \<^verbatim>\<open>Math.random\<close>, and whether a
  DOM or React call throws) is an argument of each call: \<open>mount_env\<close> and
  \<open>unmount_env\<close>. A call that throws is taken to leave the DOM and the roots as they were.
\<close>

subsection \<open>Values\<close>

type_synonym key = string

datatype js_error = ReferenceError | TypeError | Thrown string

text \<open>
  DOM nodes by identity: \<open>Elem n\<close> is a node of the host page (\<^verbatim>\<open>document.body\<close>, a mount
  node passed by the caller), \<open>Div n\<close> is the node returned by the \<open>n\<close>-th successful
  \<^verbatim>\<open>document.createElement('div')\<close> of this mounter.
\<close>

datatype node = Elem nat | Div nat

datatype component = Component string

datatype props = Props string

record ConfirmationEntry =
  wrapper :: node
  root :: nat

datatype root_status = Fresh | Rendered component props | Unmounted

text \<open>A \<^verbatim>\<open>mounted\<close> callback either returns or throws.\<close>

datatype callback = Callback "js_error option"

text \<open>
  The calls the mounter makes and the writes to its registry, in the order in which they
  happen. A call is recorded when it is made, whether or not it throws.
\<close>

datatype event =
    E_createElement
  | E_appendChild node node
  | E_createRoot node
  | E_set key ConfirmationEntry
  | E_render nat component props
  | E_mounted
  | E_delete key
  | E_root_unmount nat
  | E_remove node
  | E_warn string js_error

record mounter_state =
  defaultMountNode :: "node option"
  confirms :: "key \<rightharpoonup> ConfirmationEntry"
  callbacks_mounted :: "callback option"
  options :: "string \<rightharpoonup> callback"
  parent_of :: "node \<rightharpoonup> node"
  roots :: "nat \<rightharpoonup> node \<times> root_status"
  next_node :: nat
  next_root :: nat
  trace :: "event list"

record mount_env =
  draw :: nat
  document_body :: "js_error + node"
  createElement_throws :: "js_error option"
  appendChild_throws :: "js_error option"
  createRoot_throws :: "js_error option"
  render_throws :: "js_error option"

record unmount_env =
  root_unmount_throws :: "js_error option"
  remove_throws :: "js_error option"

text \<open>
  In \<open>mount_env\<close>: \<open>draw\<close> is the integer \<^verbatim>\<open>Math.floor(Math.random() * (1 << 30))\<close>;
  \<open>document_body\<close> is what evaluating \<^verbatim>\<open>document.body\<close> gives, an error where there is no
  \<^verbatim>\<open>document\<close>; the other fields say whether \<^verbatim>\<open>document.createElement('div')\<close>,
  \<^verbatim>\<open>parent.appendChild(...)\<close>, \<^verbatim>\<open>createRoot(wrapper)\<close> and the statement
  \<^verbatim>\<open>root.render(<Component {...props} />)\<close> throw, and what. In \<open>unmount_env\<close> likewise for
  \<^verbatim>\<open>confirmation.root.unmount()\<close> and \<^verbatim>\<open>confirmation.wrapper.remove()\<close>.
\<close>

definition emit :: "event \<Rightarrow> mounter_state \<Rightarrow> mounter_state" where
  "emit e s = s\<lparr>trace := trace s @ [e]\<rparr>"

subsection \<open>\<^verbatim>\<open>createDomTreeMounter\<close>\<close>

text \<open>
  \<^verbatim>\<open>const confirms = {}; const callbacks = {};\<close> and the returned \<^verbatim>\<open>options: {}\<close>.
\<close>

definition createDomTreeMounter :: "node option \<Rightarrow> mounter_state" where
  "createDomTreeMounter dflt =
     \<lparr>defaultMountNode = dflt, confirms = Map.empty, callbacks_mounted = None,
      options = Map.empty, parent_of = Map.empty, roots = Map.empty,
      next_node = 0, next_root = 0, trace = []\<rparr>"

subsection \<open>\<^verbatim>\<open>generateKey\<close>\<close>

text \<open>
  \<^verbatim>\<open>Math.floor(Math.random() * (1 << 30)).toString(16)\<close>. The argument of
  \<open>generateKey\<close> is the integer \<^verbatim>\<open>Math.floor(Math.random() * (1 << 30))\<close>, a
  natural number below \<open>2 ^ 30\<close>; \<open>toString16\<close> is \<^verbatim>\<open>Number.prototype.toString(16)\<close>
  on a non-negative integer: lower-case digits, most significant first, no leading zero.
\<close>

definition hex_digit :: "nat \<Rightarrow> char" where
  "hex_digit d = ''0123456789abcdef'' ! d"

fun toString16 :: "nat \<Rightarrow> string" where
  "toString16 n =
     (if n < 16 then [hex_digit n] else toString16 (n div 16) @ [hex_digit (n mod 16)])"

declare toString16.simps [simp del]

definition generateKey :: "nat \<Rightarrow> key" where
  "generateKey r = toString16 r"

subsection \<open>\<^verbatim>\<open>getParentNode\<close>\<close>

text \<open>
  \<^verbatim>\<open>mountNode || defaultMountNode || document.body\<close>. A node is an object and so truthy;
  \<open>None\<close> is \<^verbatim>\<open>undefined\<close>. \<^verbatim>\<open>document.body\<close> is evaluated only when both are undefined,
  and throws where there is no \<^verbatim>\<open>document\<close>.
\<close>

definition getParentNode :: "mount_env \<Rightarrow> mounter_state \<Rightarrow> node option \<Rightarrow> js_error + node" where
  "getParentNode env s mountNode =
     (case mountNode of
        Some n \<Rightarrow> Inr n
      | None \<Rightarrow> (case defaultMountNode s of Some d \<Rightarrow> Inr d | None \<Rightarrow> document_body env))"

subsection \<open>\<^verbatim>\<open>mount\<close>\<close>

text \<open>The \<^verbatim>\<open>callbacks.mounted?.()\<close> of the try block.\<close>

definition call_mounted :: "mounter_state \<Rightarrow> (js_error + unit) \<times> mounter_state" where
  "call_mounted s =
     (case callbacks_mounted s of
        None \<Rightarrow> (Inr (), s)
      | Some (Callback None) \<Rightarrow> (Inr (), emit E_mounted s)
      | Some (Callback (Some err)) \<Rightarrow> (Inl err, emit E_mounted s))"

text \<open>The body of the \<^verbatim>\<open>try\<close> block of \<^verbatim>\<open>mount\<close>, statement by statement.\<close>

definition mount_try ::
  "mount_env \<Rightarrow> component \<Rightarrow> props \<Rightarrow> node option \<Rightarrow> key \<Rightarrow> mounter_state
     \<Rightarrow> (js_error + unit) \<times> mounter_state" where
  "mount_try env C P mountNode k s =
     (case getParentNode env s mountNode of
        Inl err \<Rightarrow> (Inl err, s)
      | Inr parent \<Rightarrow>
          let s1 = emit E_createElement s in
          (case createElement_throws env of
             Some err \<Rightarrow> (Inl err, s1)
           | None \<Rightarrow>
               let w = Div (next_node s1);
                   s2 = emit (E_appendChild parent w) (s1\<lparr>next_node := Suc (next_node s1)\<rparr>)
               in
               (case appendChild_throws env of
                  Some err \<Rightarrow> (Inl err, s2)
                | None \<Rightarrow>
                    let s3 = emit (E_createRoot w) (s2\<lparr>parent_of := (parent_of s2)(w \<mapsto> parent)\<rparr>) in
                    (case createRoot_throws env of
                       Some err \<Rightarrow> (Inl err, s3)
                     | None \<Rightarrow>
                         let r = next_root s3;
                             s4 = s3\<lparr>roots := (roots s3)(r \<mapsto> (w, Fresh)),
                                     next_root := Suc (next_root s3)\<rparr>;
                             c = \<lparr>wrapper = w, root = r\<rparr>;
                             s5 = emit (E_set k c) (s4\<lparr>confirms := (confirms s4)(k \<mapsto> c)\<rparr>);
                             s6 = emit (E_render r C P) s5
                         in
                         (case render_throws env of
                            Some err \<Rightarrow> (Inl err, s6)
                          | None \<Rightarrow>
                              call_mounted
                                (s6\<lparr>roots := (roots s6)(r \<mapsto> (w, Rendered C P))\<rparr>))))))"

text \<open>
  \<^verbatim>\<open>mount\<close>: the key is generated before the try block; the \<^verbatim>\<open>catch\<close> block deletes
  \<^verbatim>\<open>confirms[key]\<close> and throws the error again.
\<close>

definition mount ::
  "mount_env \<Rightarrow> component \<Rightarrow> props \<Rightarrow> node option \<Rightarrow> mounter_state
     \<Rightarrow> (js_error + key) \<times> mounter_state" where
  "mount env C P mountNode s =
     (let k = generateKey (draw env) in
      case mount_try env C P mountNode k s of
        (Inr _, s') \<Rightarrow> (Inr k, s')
      | (Inl err, s') \<Rightarrow>
          (Inl err, emit (E_delete k) (s'\<lparr>confirms := (confirms s')(k := None)\<rparr>)))"

subsection \<open>\<^verbatim>\<open>unmount\<close>\<close>

text \<open>
  \<^verbatim>\<open>confirms\<close> is an object literal \<^verbatim>\<open>{}\<close>, so \<^verbatim>\<open>confirms[key]\<close> finds an own property
  first and otherwise a property inherited from \<^verbatim>\<open>Object.prototype\<close>; every inherited
  value is a function or an object, hence truthy, and has no property \<^verbatim>\<open>root\<close> or
  \<^verbatim>\<open>wrapper\<close>.
\<close>

definition objectPrototypeKeys :: "key list" where
  "objectPrototypeKeys =
     [''constructor'', ''hasOwnProperty'', ''isPrototypeOf'', ''propertyIsEnumerable'',
      ''toLocaleString'', ''toString'', ''valueOf'', ''__proto__'', ''__defineGetter__'',
      ''__defineSetter__'', ''__lookupGetter__'', ''__lookupSetter__'']"

datatype lookup = Own ConfirmationEntry | Inherited | Undefined

definition get_confirm :: "mounter_state \<Rightarrow> key \<Rightarrow> lookup" where
  "get_confirm s k =
     (case confirms s k of
        Some c \<Rightarrow> Own c
      | None \<Rightarrow> if k \<in> set objectPrototypeKeys then Inherited else Undefined)"

text \<open>\<^verbatim>\<open>try { body } catch (error) { console.warn(msg, error) }\<close>\<close>

definition try_warn ::
  "string \<Rightarrow> (mounter_state \<Rightarrow> (js_error + unit) \<times> mounter_state)
     \<Rightarrow> mounter_state \<Rightarrow> (js_error + unit) \<times> mounter_state" where
  "try_warn msg body s =
     (case body s of
        (Inr u, s') \<Rightarrow> (Inr u, s')
      | (Inl err, s') \<Rightarrow> (Inr (), emit (E_warn msg err) s'))"

text \<open>
  \<^verbatim>\<open>confirmation.root.unmount()\<close> and \<^verbatim>\<open>confirmation.wrapper.remove()\<close>. On an inherited
  value \<^verbatim>\<open>confirmation.root\<close> is \<^verbatim>\<open>undefined\<close> and reading \<^verbatim>\<open>.unmount\<close> of it throws a
  TypeError before any call is made; likewise for \<^verbatim>\<open>.wrapper.remove\<close>.
\<close>

definition root_unmount :: "unmount_env \<Rightarrow> lookup \<Rightarrow> mounter_state \<Rightarrow> (js_error + unit) \<times> mounter_state" where
  "root_unmount env l s =
     (case l of
        Own c \<Rightarrow>
          let s1 = emit (E_root_unmount (root c)) s in
          (case root_unmount_throws env of
             Some err \<Rightarrow> (Inl err, s1)
           | None \<Rightarrow>
               (Inr (),
                s1\<lparr>roots := (case roots s1 (root c) of
                                None \<Rightarrow> roots s1
                              | Some (w, _) \<Rightarrow> (roots s1)(root c \<mapsto> (w, Unmounted)))\<rparr>))
      | _ \<Rightarrow> (Inl TypeError, s))"

definition wrapper_remove :: "unmount_env \<Rightarrow> lookup \<Rightarrow> mounter_state \<Rightarrow> (js_error + unit) \<times> mounter_state" where
  "wrapper_remove env l s =
     (case l of
        Own c \<Rightarrow>
          let s1 = emit (E_remove (wrapper c)) s in
          (case remove_throws env of
             Some err \<Rightarrow> (Inl err, s1)
           | None \<Rightarrow> (Inr (), s1\<lparr>parent_of := (parent_of s1)(wrapper c := None)\<rparr>))
      | _ \<Rightarrow> (Inl TypeError, s))"

text \<open>The statement sequence \<^verbatim>\<open>a; b\<close>: \<open>b\<close> runs only when \<open>a\<close> did not throw.\<close>

definition seq ::
  "(mounter_state \<Rightarrow> (js_error + unit) \<times> mounter_state)
     \<Rightarrow> (mounter_state \<Rightarrow> (js_error + unit) \<times> mounter_state)
     \<Rightarrow> mounter_state \<Rightarrow> (js_error + unit) \<times> mounter_state" where
  "seq a b s = (case a s of (Inl err, s') \<Rightarrow> (Inl err, s') | (Inr _, s') \<Rightarrow> b s')"

definition delete_confirm :: "key \<Rightarrow> mounter_state \<Rightarrow> (js_error + unit) \<times> mounter_state" where
  "delete_confirm k s = (Inr (), emit (E_delete k) (s\<lparr>confirms := (confirms s)(k := None)\<rparr>))"

definition unmount :: "unmount_env \<Rightarrow> key \<Rightarrow> mounter_state \<Rightarrow> (js_error + unit) \<times> mounter_state" where
  "unmount env k s =
     (let confirmation = get_confirm s k in
      if confirmation = Undefined then (Inr (), s)
      else
        seq (delete_confirm k)
          (seq (try_warn ''react-confirm: Failed to unmount React root:''
                  (root_unmount env confirmation))
               (try_warn ''react-confirm: Failed to remove DOM wrapper:''
                  (wrapper_remove env confirmation)))
          s)"

subsection \<open>What a caller can do with the returned object\<close>

text \<open>
  The returned object has \<^verbatim>\<open>mount\<close>, \<^verbatim>\<open>unmount\<close> and \<^verbatim>\<open>options\<close>; a caller can call the
  first two and can write a property of the third.
\<close>

datatype op =
    Mount mount_env component props "node option"
  | Unmount unmount_env key
  | SetOption string callback

fun step :: "mounter_state \<Rightarrow> op \<Rightarrow> mounter_state" where
  "step s (Mount env C P mountNode) = snd (mount env C P mountNode s)"
| "step s (Unmount env k) = snd (unmount env k s)"
| "step s (SetOption name cb) = s\<lparr>options := (options s)(name \<mapsto> cb)\<rparr>"

definition run :: "mounter_state \<Rightarrow> op list \<Rightarrow> mounter_state" where
  "run s ops = foldl step s ops"

subsection \<open>Concrete inputs\<close>

text \<open>
  An environment in which no call throws and \<^verbatim>\<open>document.body\<close> is the node \<open>Elem 0\<close>,
  for the given draw; used to run the model on concrete inputs.
\<close>

definition example_env :: "nat \<Rightarrow> mount_env" where
  "example_env n =
     \<lparr>draw = n, document_body = Inr (Elem 0), createElement_throws = None,
      appendChild_throws = None, createRoot_throws = None, render_throws = None\<rparr>"

definition example_unmount_env :: unmount_env where
  "example_unmount_env = \<lparr>root_unmount_throws = None, remove_throws = None\<rparr>"

text \<open>
  The same environment, except that \<^verbatim>\<open>root.render(<Component {...props} />)\<close> throws.
\<close>

definition example_failing_env :: mount_env where
  "example_failing_env =
     (example_env 10)\<lparr>render_throws := Some (Thrown ''render failed'')\<rparr>"

text \<open>
  The mounter after one successful \<^verbatim>\<open>mount\<close> whose draw is 10, hence whose key is \<open>''a''\<close>.
\<close>

definition example_mounted :: mounter_state where
  "example_mounted =
     snd (mount (example_env 10) (Component ''Dialog'') (Props ''message'') None
            (createDomTreeMounter None))"

text \<open>
  An environment in which both \<^verbatim>\<open>root.unmount()\<close> and \<^verbatim>\<open>wrapper.remove()\<close> throw.
\<close>

definition example_throwing_unmount_env :: unmount_env where
  "example_throwing_unmount_env =
     \<lparr>root_unmount_throws = Some (Thrown ''root gone''),
      remove_throws = Some (Thrown ''node gone'')\<rparr>"

text \<open>
  The two resource-release calls of \<^verbatim>\<open>unmount\<close>.
\<close>

fun is_release :: "event \<Rightarrow> bool" where
  "is_release (E_root_unmount r) = True"
| "is_release (E_remove w) = True"
| "is_release e = False"

text \<open>
  Between \<open>t\<close> and \<open>t'\<close> no root and no DOM node changed and no release call was made.
\<close>

definition releases_nothing :: "mounter_state \<Rightarrow> mounter_state \<Rightarrow> bool" where
  "releases_nothing t t' \<longleftrightarrow>
     roots t' = roots t \<and> parent_of t' = parent_of t \<and>
     \<not> list_ex is_release (drop (length (trace t)) (trace t'))"

text \<open>
  The draws of the \<^verbatim>\<open>mount\<close> calls of a sequence, in order.
\<close>

fun draws :: "op list \<Rightarrow> nat list" where
  "draws [] = []"
| "draws (Mount env C P mountNode # ops) = draw env # draws ops"
| "draws (Unmount env k # ops) = draws ops"
| "draws (SetOption name cb # ops) = draws ops"

text \<open>
  Sequences of calls used as concrete inputs.
\<close>

definition example_ops :: "op list" where
  "example_ops =
     [Mount (example_env 10) (Component ''Dialog'') (Props ''message'') None,
      Unmount example_unmount_env ''a'',
      Mount (example_env 11) (Component ''Dialog'') (Props ''message'') None]"

text \<open>
  The entries of the registry hold nodes and roots that were created before, and two
  entries share neither a node nor a root.
\<close>

definition entries_separate :: "mounter_state \<Rightarrow> bool" where
  "entries_separate s \<longleftrightarrow>
     (\<forall>k c. confirms s k = Some c \<longrightarrow>
        (\<exists>i<next_node s. wrapper c = Div i) \<and> root c < next_root s) \<and>
     (\<forall>k k' c c'. confirms s k = Some c \<longrightarrow> confirms s k' = Some c' \<longrightarrow> k \<noteq> k' \<longrightarrow>
        wrapper c \<noteq> wrapper c' \<and> root c \<noteq> root c')"

definition example_two_ops :: "op list" where
  "example_two_ops =
     [Mount (example_env 10) (Component ''Dialog'') (Props ''first'') None,
      Mount (example_env 11) (Component ''Dialog'') (Props ''second'') None]"

text \<open>
  An environment without a \<^verbatim>\<open>document\<close>: evaluating \<^verbatim>\<open>document.body\<close> throws.
\<close>

definition example_no_document_env :: mount_env where
  "example_no_document_env = (example_env 10)\<lparr>document_body := Inl ReferenceError\<rparr>"

text \<open>
  A mounter whose \<^verbatim>\<open>callbacks.mounted\<close> holds a callback that returns. No call on the object
  \<^verbatim>\<open>createDomTreeMounter\<close> returns produces this state; it is the state in which \<^verbatim>\<open>mount\<close>
  has a callback to call.
\<close>

definition example_with_callback :: mounter_state where
  "example_with_callback = (createDomTreeMounter None)\<lparr>callbacks_mounted := Some (Callback None)\<rparr>"

text \<open>
  What is seen of a \<^verbatim>\<open>mount\<close> that passes \<open>parent\<close> as the container: its first two
  calls are \<^verbatim>\<open>createElement\<close> and \<^verbatim>\<open>parent.appendChild\<close> of the new node, and when
  \<^verbatim>\<open>appendChild\<close> does not throw the new node hangs under \<open>parent\<close> afterwards.
\<close>

definition appends_under :: "mount_env \<Rightarrow> mounter_state \<Rightarrow> mounter_state \<Rightarrow> node \<Rightarrow> bool" where
  "appends_under env s s' parent \<longleftrightarrow>
     take 2 (drop (length (trace s)) (trace s')) =
       [E_createElement, E_appendChild parent (Div (next_node s))] \<and>
     (appendChild_throws env = None \<longrightarrow> parent_of s' (Div (next_node s)) = Some parent)"

section \<open>Properties\<close>

subsection \<open>Keys\<close>

lemma hex_digit_inj: "d < 16 \<Longrightarrow> e < 16 \<Longrightarrow> hex_digit d = hex_digit e \<Longrightarrow> d = e"
proof -
  assume d: "d < 16" and e: "e < 16" and eq: "hex_digit d = hex_digit e"
  have dist: "distinct ''0123456789abcdef''" by simp
  have len: "length ''0123456789abcdef'' = 16" by simp
  from dist d e eq show "d = e"
    unfolding hex_digit_def using len by (metis nth_eq_iff_index_eq)
qed

lemma toString16_not_Nil: "toString16 n \<noteq> []"
  by (subst toString16.simps) simp

lemma toString16_small: "n < 16 \<Longrightarrow> toString16 n = [hex_digit n]"
  by (subst toString16.simps) simp

lemma toString16_big: "\<not> n < 16 \<Longrightarrow> toString16 n = toString16 (n div 16) @ [hex_digit (n mod 16)]"
  by (subst toString16.simps) simp

lemma toString16_inj: "toString16 m = toString16 n \<Longrightarrow> m = n"
proof (induction m arbitrary: n rule: toString16.induct)
  case (1 m)
  show ?case
  proof (cases "m < 16")
    case True
    note m = True
    show ?thesis
    proof (cases "n < 16")
      case True
      with m "1.prems" show ?thesis
        by (simp add: toString16_small hex_digit_inj)
    next
      case False
      with m "1.prems" toString16_not_Nil [of "n div 16"] show ?thesis
        by (simp add: toString16_small toString16_big)
    qed
  next
    case False
    note m = False
    show ?thesis
    proof (cases "n < 16")
      case True
      with m "1.prems" toString16_not_Nil [of "m div 16"] show ?thesis
        by (simp add: toString16_small toString16_big)
    next
      case False
      with m "1.prems" have a: "toString16 (m div 16) = toString16 (n div 16)"
        and b: "hex_digit (m mod 16) = hex_digit (n mod 16)"
        by (simp_all add: toString16_big)
      from "1.IH" [OF m a] have "m div 16 = n div 16" .
      moreover from b have "m mod 16 = n mod 16"
        by (simp add: hex_digit_inj)
      ultimately show ?thesis
        by (metis div_mult_mod_eq)
    qed
  qed
qed

lemma hex_digit_mem: "d < 16 \<Longrightarrow> hex_digit d \<in> set ''0123456789abcdef''"
  unfolding hex_digit_def by (rule nth_mem) simp

lemma toString16_chars: "set (toString16 n) \<subseteq> set ''0123456789abcdef''"
proof (induction n rule: toString16.induct)
  case (1 n)
  show ?case
  proof (cases "n < 16")
    case True
    then show ?thesis using hex_digit_mem [of n] by (simp add: toString16_small)
  next
    case False
    then show ?thesis using "1.IH" hex_digit_mem [of "n mod 16"]
      by (simp add: toString16_big)
  qed
qed

lemma prototype_key_not_hex:
  "k \<in> set objectPrototypeKeys \<Longrightarrow> \<not> set k \<subseteq> set ''0123456789abcdef''"
  by (auto simp: objectPrototypeKeys_def)

lemma generateKey_not_inherited: "generateKey n \<notin> set objectPrototypeKeys"
  using prototype_key_not_hex [of "generateKey n"] toString16_chars [of n]
  by (auto simp: generateKey_def)


lemma generateKey_inj: "generateKey m = generateKey n \<Longrightarrow> m = n"
  by (simp add: generateKey_def toString16_inj)

subsection \<open>mount\<close>

lemma call_mounted_Inr:
  "call_mounted s = (Inr u, s') \<longleftrightarrow>
     (\<forall>err. callbacks_mounted s \<noteq> Some (Callback (Some err))) \<and>
     s' = s\<lparr>trace := trace s @ (if callbacks_mounted s = None then [] else [E_mounted])\<rparr>"
  by (auto simp: call_mounted_def emit_def split: option.splits callback.splits)

lemma mount_try_Inr:
  "mount_try env C P mountNode k s = (Inr u, s') \<longleftrightarrow>
     (\<exists>parent. getParentNode env s mountNode = Inr parent \<and>
        createElement_throws env = None \<and> appendChild_throws env = None \<and>
        createRoot_throws env = None \<and> render_throws env = None \<and>
        (\<forall>err. callbacks_mounted s \<noteq> Some (Callback (Some err))) \<and>
        s' = s\<lparr>next_node := Suc (next_node s),
               parent_of := (parent_of s)(Div (next_node s) \<mapsto> parent),
               roots := (roots s)(next_root s \<mapsto> (Div (next_node s), Rendered C P)),
               next_root := Suc (next_root s),
               confirms := (confirms s)(k \<mapsto> \<lparr>wrapper = Div (next_node s), root = next_root s\<rparr>),
               trace := trace s @
                 [E_createElement, E_appendChild parent (Div (next_node s)),
                  E_createRoot (Div (next_node s)),
                  E_set k \<lparr>wrapper = Div (next_node s), root = next_root s\<rparr>,
                  E_render (next_root s) C P] @
                 (if callbacks_mounted s = None then [] else [E_mounted])\<rparr>)"
  by (auto simp: mount_try_def call_mounted_Inr emit_def Let_def split: sum.splits option.splits)

lemma mount_Inr:
  "mount env C P mountNode s = (Inr k, s') \<longleftrightarrow>
     k = generateKey (draw env) \<and> mount_try env C P mountNode (generateKey (draw env)) s = (Inr (), s')"
  by (auto simp: mount_def Let_def split: sum.splits prod.splits)


lemma call_mounted_frame:
  "call_mounted s = (res, s') \<Longrightarrow>
     s' = s\<lparr>trace := trace s'\<rparr> \<and>
     (callbacks_mounted s = None \<longrightarrow> trace s' = trace s \<and> res = Inr ())"
  by (auto simp: call_mounted_def emit_def split: option.splits callback.splits)

lemma mount_try_frame:
  assumes "mount_try env C P mountNode k s = (res, s')"
  shows "callbacks_mounted s' = callbacks_mounted s \<and> options s' = options s \<and>
         defaultMountNode s' = defaultMountNode s \<and>
         next_node s \<le> next_node s' \<and> next_root s \<le> next_root s' \<and>
         (confirms s' = confirms s \<or>
          confirms s' = (confirms s)(k \<mapsto> \<lparr>wrapper = Div (next_node s), root = next_root s\<rparr>) \<and>
          next_node s < next_node s' \<and> next_root s < next_root s')"
  using assms
  by (auto simp: mount_try_def emit_def Let_def call_mounted_def
           split: sum.splits option.splits callback.splits)

lemma mount_Inl:
  "mount env C P mountNode s = (Inl err, s') \<longleftrightarrow>
     (\<exists>s1. mount_try env C P mountNode (generateKey (draw env)) s = (Inl err, s1) \<and>
        s' = s1\<lparr>confirms := (confirms s1)(generateKey (draw env) := None),
                trace := trace s1 @ [E_delete (generateKey (draw env))]\<rparr>)"
  by (auto simp: mount_def Let_def emit_def split: sum.splits prod.splits)

subsection \<open>unmount\<close>

lemma unmount_Undefined:
  "confirms s k = None \<Longrightarrow> k \<notin> set objectPrototypeKeys \<Longrightarrow> unmount env k s = (Inr (), s)"
  by (simp add: unmount_def get_confirm_def)

lemma unmount_Inherited:
  "confirms s k = None \<Longrightarrow> k \<in> set objectPrototypeKeys \<Longrightarrow>
     unmount env k s =
       (Inr (), s\<lparr>trace := trace s @
          [E_delete k,
           E_warn ''react-confirm: Failed to unmount React root:'' TypeError,
           E_warn ''react-confirm: Failed to remove DOM wrapper:'' TypeError]\<rparr>)"
proof -
  assume none: "confirms s k = None" and inh: "k \<in> set objectPrototypeKeys"
  from none have "(confirms s)(k := None) = confirms s"
    by (simp add: fun_upd_idem_iff)
  with none inh show ?thesis
    by (simp add: unmount_def get_confirm_def seq_def delete_confirm_def try_warn_def
          root_unmount_def wrapper_remove_def emit_def)
qed

lemma unmount_Own:
  "confirms s k = Some c \<Longrightarrow>
     unmount env k s =
       (Inr (),
        s\<lparr>confirms := (confirms s)(k := None),
          roots := (case root_unmount_throws env of
                      Some err \<Rightarrow> roots s
                    | None \<Rightarrow> (case roots s (root c) of
                                 None \<Rightarrow> roots s
                               | Some (w, st) \<Rightarrow> (roots s)(root c \<mapsto> (w, Unmounted)))),
          parent_of := (case remove_throws env of
                          Some err \<Rightarrow> parent_of s
                        | None \<Rightarrow> (parent_of s)(wrapper c := None)),
          trace := trace s @
            [E_delete k, E_root_unmount (root c)] @
            (case root_unmount_throws env of
               Some err \<Rightarrow> [E_warn ''react-confirm: Failed to unmount React root:'' err]
             | None \<Rightarrow> []) @
            [E_remove (wrapper c)] @
            (case remove_throws env of
               Some err \<Rightarrow> [E_warn ''react-confirm: Failed to remove DOM wrapper:'' err]
             | None \<Rightarrow> [])\<rparr>)"
  by (simp add: unmount_def get_confirm_def seq_def delete_confirm_def try_warn_def
        root_unmount_def wrapper_remove_def emit_def Let_def
        split: option.splits prod.splits)

subsection \<open>The target container\<close>

lemmas mount_eval =
  mount_def mount_try_def getParentNode_def call_mounted_def emit_def Let_def
  generateKey_def toString16_small hex_digit_def createDomTreeMounter_def
  example_env_def

text \<open>
  A \<^verbatim>\<open>mount\<close> whose container resolves appends under that container, whatever happens
  later in the call; a \<^verbatim>\<open>mount\<close> whose container does not resolve fails at once.
\<close>

lemma mount_appends_under:
  assumes "getParentNode env s mountNode = Inr parent" and "createElement_throws env = None"
  shows "appends_under env s (snd (mount env C P mountNode s)) parent"
  using assms
  by (auto simp: appends_under_def mount_def mount_try_def call_mounted_def emit_def Let_def
           split: sum.splits option.splits callback.splits prod.splits)

lemma mount_no_container:
  assumes "getParentNode env s mountNode = Inl err"
  shows "mount env C P mountNode s =
           (Inl err, s\<lparr>confirms := (confirms s)(generateKey (draw env) := None),
                       trace := trace s @ [E_delete (generateKey (draw env))]\<rparr>)"
  using assms
  by (simp add: mount_def mount_try_def emit_def Let_def)

text \<open>
  Claim C7. In every \<^verbatim>\<open>mount\<close> call that gets as far as \<^verbatim>\<open>appendChild\<close>, failed later or
  not, the container is the \<^verbatim>\<open>mountNode\<close> argument when one is given, otherwise the
  \<^verbatim>\<open>defaultMountNode\<close> the mounter was created with when there is one, otherwise
  \<^verbatim>\<open>document.body\<close>; when \<^verbatim>\<open>document.body\<close> has to be read and cannot be, \<^verbatim>\<open>mount\<close>
  throws that error and appends nothing.
\<close>

theorem mount_target_resolution:
  assumes "createElement_throws env = None"
  shows "case mountNode of
           Some n \<Rightarrow> appends_under env s (snd (mount env C P mountNode s)) n
         | None \<Rightarrow>
             (case defaultMountNode s of
                Some d \<Rightarrow> appends_under env s (snd (mount env C P mountNode s)) d
              | None \<Rightarrow>
                  (case document_body env of
                     Inr body \<Rightarrow> appends_under env s (snd (mount env C P mountNode s)) body
                   | Inl err \<Rightarrow>
                       fst (mount env C P mountNode s) = Inl err \<and>
                       parent_of (snd (mount env C P mountNode s)) = parent_of s \<and>
                       next_node (snd (mount env C P mountNode s)) = next_node s))"
proof (cases "getParentNode env s mountNode")
  case (Inl err)
  with mount_no_container [OF Inl, of C P] show ?thesis
    by (auto simp: getParentNode_def split: option.splits sum.splits)
next
  case (Inr parent)
  with mount_appends_under [OF Inr assms, of C P] show ?thesis
    by (auto simp: getParentNode_def split: option.splits sum.splits)
qed

text \<open>
  An explicit mount node wins over the default; the default is used without one;
  \<^verbatim>\<open>document.body\<close> is used without either, also in a \<^verbatim>\<open>mount\<close> that fails in \<^verbatim>\<open>render\<close>;
  without a \<^verbatim>\<open>document\<close> the call throws.
\<close>

theorem mount_target_resolution_witness:
  "createElement_throws (example_env 10) = None \<and>
   parent_of (snd (mount (example_env 10) (Component ''Dialog'') (Props ''message'') (Some (Elem 3))
          (createDomTreeMounter (Some (Elem 7))))) (Div 0) = Some (Elem 3) \<and>
   parent_of (snd (mount (example_env 10) (Component ''Dialog'') (Props ''message'') None
          (createDomTreeMounter (Some (Elem 7))))) (Div 0) = Some (Elem 7) \<and>
   parent_of (snd (mount (example_env 10) (Component ''Dialog'') (Props ''message'') None
          (createDomTreeMounter None))) (Div 0) = Some (Elem 0) \<and>
   fst (mount example_failing_env (Component ''Dialog'') (Props ''message'') None
          (createDomTreeMounter None)) = Inl (Thrown ''render failed'') \<and>
   parent_of (snd (mount example_failing_env (Component ''Dialog'') (Props ''message'') None
          (createDomTreeMounter None))) (Div 0) = Some (Elem 0) \<and>
   fst (mount example_no_document_env (Component ''Dialog'') (Props ''message'') None
          (createDomTreeMounter None)) = Inl ReferenceError \<and>
   parent_of (snd (mount example_no_document_env (Component ''Dialog'') (Props ''message'') None
          (createDomTreeMounter None))) = Map.empty"
proof -
  let ?C = "Component ''Dialog''" and ?P = "Props ''message''"
  let ?d = "createDomTreeMounter (Some (Elem 7))" and ?n = "createDomTreeMounter None"
  have e: "createElement_throws (example_env 10) = None"
    "appendChild_throws (example_env 10) = None"
    "document_body (example_env 10) = Inr (Elem 0)"
    by (simp_all add: example_env_def)
  have f: "createElement_throws example_failing_env = None"
    "appendChild_throws example_failing_env = None"
    "document_body example_failing_env = Inr (Elem 0)"
    by (simp_all add: example_failing_env_def example_env_def)
  have g: "createElement_throws example_no_document_env = None"
    "document_body example_no_document_env = Inl ReferenceError"
    by (simp_all add: example_no_document_env_def example_env_def)
  have d: "defaultMountNode ?d = Some (Elem 7)" "next_node ?d = 0"
    by (simp_all add: createDomTreeMounter_def)
  have n: "defaultMountNode ?n = None" "next_node ?n = 0" "parent_of ?n = Map.empty"
    by (simp_all add: createDomTreeMounter_def)
  from mount_target_resolution [where mountNode = "Some (Elem 3)" and s = ?d and C = ?C and P = ?P, OF e(1)]
  have 1: "parent_of (snd (mount (example_env 10) ?C ?P (Some (Elem 3)) ?d)) (Div 0) = Some (Elem 3)"
    by (simp add: appends_under_def e(2) d(2))
  from mount_target_resolution [where mountNode = None and s = ?d and C = ?C and P = ?P, OF e(1)]
  have 2: "parent_of (snd (mount (example_env 10) ?C ?P None ?d)) (Div 0) = Some (Elem 7)"
    by (simp add: appends_under_def e(2) d)
  from mount_target_resolution [where mountNode = None and s = ?n and C = ?C and P = ?P, OF e(1)]
  have 3: "parent_of (snd (mount (example_env 10) ?C ?P None ?n)) (Div 0) = Some (Elem 0)"
    by (simp add: appends_under_def e(2,3) n(1,2))
  from mount_target_resolution [where mountNode = None and s = ?n and C = ?C and P = ?P, OF f(1)]
  have 4: "parent_of (snd (mount example_failing_env ?C ?P None ?n)) (Div 0) = Some (Elem 0)"
    by (simp add: appends_under_def f(2,3) n(1,2))
  have 5: "fst (mount example_failing_env ?C ?P None ?n) = Inl (Thrown ''render failed'')"
    by (simp add: mount_eval example_failing_env_def)
  from mount_target_resolution [where mountNode = None and s = ?n and C = ?C and P = ?P, OF g(1)]
  have 6: "fst (mount example_no_document_env ?C ?P None ?n) = Inl ReferenceError"
    and 7: "parent_of (snd (mount example_no_document_env ?C ?P None ?n)) = Map.empty"
    by (simp_all add: g(2) n)
  from e(1) 1 2 3 4 5 6 7 show ?thesis by blast
qed

subsection \<open>The effect of a successful mount\<close>

text \<open>
  Claim C9, amended. \<^verbatim>\<open>mount\<close> returns a key exactly when the container resolves, no step
  throws and the callback, if set, does not throw. Then a new node \<open>Div (next_node s)\<close> has
  been created and appended under the container, a new root has been created on that node,
  the pair has been recorded in the registry under the returned key, the component has been
  rendered into the root with the props, and the \<^verbatim>\<open>mounted\<close> callback has been called when it
  is set. The trace gives the order of the calls: the registry is written before
  \<^verbatim>\<open>render\<close> is called, and the callback is called last.
\<close>

theorem mount_postcondition:
  "mount env C P mountNode s = (Inr k, s') \<longleftrightarrow>
     (\<exists>parent.
        getParentNode env s mountNode = Inr parent \<and>
        createElement_throws env = None \<and> appendChild_throws env = None \<and>
        createRoot_throws env = None \<and> render_throws env = None \<and>
        (\<forall>err. callbacks_mounted s \<noteq> Some (Callback (Some err))) \<and>
        k = generateKey (draw env) \<and>
        s' = s\<lparr>next_node := Suc (next_node s),
               parent_of := (parent_of s)(Div (next_node s) \<mapsto> parent),
               roots := (roots s)(next_root s \<mapsto> (Div (next_node s), Rendered C P)),
               next_root := Suc (next_root s),
               confirms := (confirms s)(k \<mapsto> \<lparr>wrapper = Div (next_node s), root = next_root s\<rparr>),
               trace := trace s @
                 [E_createElement, E_appendChild parent (Div (next_node s)),
                  E_createRoot (Div (next_node s)),
                  E_set k \<lparr>wrapper = Div (next_node s), root = next_root s\<rparr>,
                  E_render (next_root s) C P] @
                 (if callbacks_mounted s = None then [] else [E_mounted])\<rparr>)"
  by (auto simp: mount_Inr mount_try_Inr)

text \<open>
  With a callback set the call of it is the last event of the mount; without one there is
  none.
\<close>

theorem mount_postcondition_witness:
  "fst (mount (example_env 10) (Component ''Dialog'') (Props ''message'') None
          example_with_callback) = Inr ''a'' \<and>
   trace (snd (mount (example_env 10) (Component ''Dialog'') (Props ''message'') None
          example_with_callback)) =
     [E_createElement, E_appendChild (Elem 0) (Div 0), E_createRoot (Div 0),
      E_set ''a'' \<lparr>wrapper = Div 0, root = 0\<rparr>,
      E_render 0 (Component ''Dialog'') (Props ''message''), E_mounted] \<and>
   confirms (snd (mount (example_env 10) (Component ''Dialog'') (Props ''message'') None
          example_with_callback)) ''a'' = Some \<lparr>wrapper = Div 0, root = 0\<rparr> \<and>
   fst (mount (example_env 10) (Component ''Dialog'') (Props ''message'') None
          (createDomTreeMounter None)) = Inr ''a'' \<and>
   trace (snd (mount (example_env 10) (Component ''Dialog'') (Props ''message'') None
          (createDomTreeMounter None))) =
     [E_createElement, E_appendChild (Elem 0) (Div 0), E_createRoot (Div 0),
      E_set ''a'' \<lparr>wrapper = Div 0, root = 0\<rparr>,
      E_render 0 (Component ''Dialog'') (Props ''message'')]"
proof -
  let ?C = "Component ''Dialog''" and ?P = "Props ''message''"
  let ?s = "createDomTreeMounter None" and ?c = example_with_callback
  have gs: "getParentNode (example_env 10) ?s None = Inr (Elem 0)"
    by (simp add: getParentNode_def example_env_def createDomTreeMounter_def)
  have gc: "getParentNode (example_env 10) ?c None = Inr (Elem 0)"
    by (simp add: getParentNode_def example_env_def createDomTreeMounter_def
          example_with_callback_def)
  have i: "next_node ?s = 0" "next_root ?s = 0" "trace ?s = []" "callbacks_mounted ?s = None"
    by (simp_all add: createDomTreeMounter_def)
  have j: "next_node ?c = 0" "next_root ?c = 0" "trace ?c = []"
    "callbacks_mounted ?c = Some (Callback None)"
    by (simp_all add: createDomTreeMounter_def example_with_callback_def)
  have sc: "mount (example_env 10) ?C ?P None ?c = (Inr ''a'', snd (mount (example_env 10) ?C ?P None ?c))"
    by (simp add: mount_eval example_with_callback_def)
  have ss: "mount (example_env 10) ?C ?P None ?s = (Inr ''a'', snd (mount (example_env 10) ?C ?P None ?s))"
    by (simp add: mount_eval)
  from mount_postcondition [THEN iffD1, OF sc]
  have c1: "trace (snd (mount (example_env 10) ?C ?P None ?c)) =
     [E_createElement, E_appendChild (Elem 0) (Div 0), E_createRoot (Div 0),
      E_set ''a'' \<lparr>wrapper = Div 0, root = 0\<rparr>, E_render 0 ?C ?P, E_mounted]"
    and c2: "confirms (snd (mount (example_env 10) ?C ?P None ?c)) ''a''
               = Some \<lparr>wrapper = Div 0, root = 0\<rparr>"
    by (auto simp: gc j)
  from mount_postcondition [THEN iffD1, OF ss]
  have s1: "trace (snd (mount (example_env 10) ?C ?P None ?s)) =
     [E_createElement, E_appendChild (Elem 0) (Div 0), E_createRoot (Div 0),
      E_set ''a'' \<lparr>wrapper = Div 0, root = 0\<rparr>, E_render 0 ?C ?P]"
    by (auto simp: gs i)
  from sc have c0: "fst (mount (example_env 10) ?C ?P None ?c) = Inr ''a''"
    by (rule arg_cong [where f = fst, THEN trans]) simp
  from ss have s0: "fst (mount (example_env 10) ?C ?P None ?s) = Inr ''a''"
    by (rule arg_cong [where f = fst, THEN trans]) simp
  from c0 c1 c2 s0 s1 show ?thesis by blast
qed

text \<open>
  Claim C9 as stated lists the render before the record. In a successful mount the write to
  the registry is the fourth event and the call of \<^verbatim>\<open>render\<close> the fifth.
\<close>

theorem record_before_render_counterexample:
  "fst (mount (example_env 10) (Component ''Dialog'') (Props ''message'') None
          (createDomTreeMounter None)) = Inr ''a'' \<and>
   trace (snd (mount (example_env 10) (Component ''Dialog'') (Props ''message'') None
          (createDomTreeMounter None))) ! 3 = E_set ''a'' \<lparr>wrapper = Div 0, root = 0\<rparr> \<and>
   trace (snd (mount (example_env 10) (Component ''Dialog'') (Props ''message'') None
          (createDomTreeMounter None))) ! 4 = E_render 0 (Component ''Dialog'') (Props ''message'')"
  by (simp add: mount_eval)

subsection \<open>A failed mount\<close>

text \<open>
  When \<^verbatim>\<open>mount\<close> fails, the error is the one the failing step threw, and the registry has
  no entry for the generated key.
\<close>

lemma mount_failure_rethrows:
  assumes "mount env C P mountNode s = (Inl err, s')"
  shows "confirms s' (generateKey (draw env)) = None \<and>
         (getParentNode env s mountNode = Inl err \<or>
          createElement_throws env = Some err \<or> appendChild_throws env = Some err \<or>
          createRoot_throws env = Some err \<or> render_throws env = Some err \<or>
          callbacks_mounted s = Some (Callback (Some err)))"
  using assms
  by (auto simp: mount_Inl mount_try_def call_mounted_def emit_def Let_def
           split: sum.splits option.splits callback.splits)

text \<open>
  When \<^verbatim>\<open>mount\<close> fails after \<^verbatim>\<open>appendChild\<close> returned, the new wrapper stays attached under
  the target container: the \<^verbatim>\<open>catch\<close> block does not remove it.
\<close>

lemma mount_failure_after_append:
  assumes "mount env C P mountNode s = (Inl err, s')"
    and "getParentNode env s mountNode = Inr parent"
    and "createElement_throws env = None" and "appendChild_throws env = None"
  shows "parent_of s' (Div (next_node s)) = Some parent"
  using assms
  by (auto simp: mount_Inl mount_try_def call_mounted_def emit_def Let_def
           split: sum.splits option.splits callback.splits)

text \<open>
  Claim C2. On a new mounter, a \<^verbatim>\<open>mount\<close> in which the \<^verbatim>\<open>render\<close> statement throws gives the
  error back and leaves no registry entry for the key \<open>''a''\<close>, but the wrapper \<open>Div 0\<close>,
  which had no parent before, is left attached under \<^verbatim>\<open>document.body\<close>, and the root
  created on it is left as it was created.
\<close>

theorem mount_failure_leaves_wrapper_attached:
  "fst (mount example_failing_env (Component ''Dialog'') (Props ''message'') None
          (createDomTreeMounter None)) = Inl (Thrown ''render failed'') \<and>
   confirms (snd (mount example_failing_env (Component ''Dialog'') (Props ''message'') None
          (createDomTreeMounter None))) ''a'' = None \<and>
   parent_of (createDomTreeMounter None) (Div 0) = None \<and>
   parent_of (snd (mount example_failing_env (Component ''Dialog'') (Props ''message'') None
          (createDomTreeMounter None))) (Div 0) = Some (Elem 0) \<and>
   roots (snd (mount example_failing_env (Component ''Dialog'') (Props ''message'') None
          (createDomTreeMounter None))) 0 = Some (Div 0, Fresh)"
  by (simp add: mount_eval example_failing_env_def)

subsection \<open>Unmounting a key that is not tracked\<close>

text \<open>
  A key that is not tracked and is not the name of a property of \<^verbatim>\<open>Object.prototype\<close>:
  \<^verbatim>\<open>unmount\<close> returns and changes nothing, once or twice.
\<close>

lemma unmount_untracked_noop:
  "confirms s k = None \<Longrightarrow> k \<notin> set objectPrototypeKeys \<Longrightarrow>
     unmount env k s = (Inr (), s) \<and>
     snd (unmount env' k (snd (unmount env k s))) = snd (unmount env k s)"
  by (simp add: unmount_Undefined)

text \<open>
  For every key \<^verbatim>\<open>generateKey\<close> can produce, tracked or not, a second \<^verbatim>\<open>unmount\<close> changes
  nothing.
\<close>

lemma unmount_twice_issued_key:
  "snd (unmount env' (generateKey n) (snd (unmount env (generateKey n) s)))
     = snd (unmount env (generateKey n) s)"
proof (cases "confirms s (generateKey n)")
  case None
  then show ?thesis
    by (simp add: unmount_Undefined generateKey_not_inherited)
next
  case (Some c)
  then show ?thesis
    by (simp add: unmount_Own unmount_Undefined generateKey_not_inherited)
qed

text \<open>
  Claim C3. On a new mounter the key \<open>''constructor''\<close> is not tracked, yet
  \<^verbatim>\<open>confirms['constructor']\<close> is the inherited \<^verbatim>\<open>Object.prototype.constructor\<close>, which is
  truthy: \<^verbatim>\<open>unmount\<close> goes past the guard, both release steps throw a TypeError, and two
  warnings are logged. The state after the call differs from the state before, and a second
  call changes it again.
\<close>

theorem unmount_inherited_key_warns:
  "confirms (createDomTreeMounter None) ''constructor'' = None \<and>
   unmount example_unmount_env ''constructor'' (createDomTreeMounter None) =
     (Inr (),
      (createDomTreeMounter None)\<lparr>trace :=
         [E_delete ''constructor'',
          E_warn ''react-confirm: Failed to unmount React root:'' TypeError,
          E_warn ''react-confirm: Failed to remove DOM wrapper:'' TypeError]\<rparr>) \<and>
   snd (unmount example_unmount_env ''constructor'' (createDomTreeMounter None))
     \<noteq> createDomTreeMounter None \<and>
   snd (unmount example_unmount_env ''constructor''
          (snd (unmount example_unmount_env ''constructor'' (createDomTreeMounter None))))
     \<noteq> snd (unmount example_unmount_env ''constructor'' (createDomTreeMounter None))"
proof -
  let ?s = "createDomTreeMounter None"
  have n: "confirms ?s ''constructor'' = None"
    by (simp add: createDomTreeMounter_def)
  have i: "''constructor'' \<in> set objectPrototypeKeys"
    by (simp add: objectPrototypeKeys_def)
  have t: "trace ?s = []" by (simp add: createDomTreeMounter_def)
  have u: "unmount example_unmount_env ''constructor'' ?s =
     (Inr (), ?s\<lparr>trace :=
         [E_delete ''constructor'',
          E_warn ''react-confirm: Failed to unmount React root:'' TypeError,
          E_warn ''react-confirm: Failed to remove DOM wrapper:'' TypeError]\<rparr>)"
    using unmount_Inherited [OF n i, of example_unmount_env] by (simp add: t)
  have d: "snd (unmount example_unmount_env ''constructor'' ?s) \<noteq> ?s"
  proof
    assume "snd (unmount example_unmount_env ''constructor'' ?s) = ?s"
    then have "trace (snd (unmount example_unmount_env ''constructor'' ?s)) = trace ?s"
      by simp
    then show False by (simp add: u t)
  qed
  let ?s1 = "snd (unmount example_unmount_env ''constructor'' ?s)"
  have n1: "confirms ?s1 ''constructor'' = None"
    using n by (simp add: u)
  have e: "snd (unmount example_unmount_env ''constructor'' ?s1) \<noteq> ?s1"
  proof
    assume "snd (unmount example_unmount_env ''constructor'' ?s1) = ?s1"
    then have "length (trace (snd (unmount example_unmount_env ''constructor'' ?s1)))
                 = length (trace ?s1)"
      by simp
    then show False
      by (simp add: unmount_Inherited [OF n1 i])
  qed
  from n u d e show ?thesis by blast
qed

subsection \<open>Teardown\<close>

lemma example_mounted_eq:
  "example_mounted =
     \<lparr>defaultMountNode = None,
      confirms = [''a'' \<mapsto> \<lparr>wrapper = Div 0, root = 0\<rparr>],
      callbacks_mounted = None, options = Map.empty,
      parent_of = [Div 0 \<mapsto> Elem 0],
      roots = [0 \<mapsto> (Div 0, Rendered (Component ''Dialog'') (Props ''message''))],
      next_node = 1, next_root = 1,
      trace = [E_createElement, E_appendChild (Elem 0) (Div 0), E_createRoot (Div 0),
               E_set ''a'' \<lparr>wrapper = Div 0, root = 0\<rparr>,
               E_render 0 (Component ''Dialog'') (Props ''message'')]\<rparr>"
  by (simp add: example_mounted_def mount_eval)

text \<open>
  Claim C4. For a tracked key \<^verbatim>\<open>unmount\<close> returns normally. The trace shows what was called:
  \<^verbatim>\<open>root.unmount()\<close>, a warning with the error when it threw, then \<^verbatim>\<open>wrapper.remove()\<close> in
  either case, and a warning with the error when that threw. When \<^verbatim>\<open>wrapper.remove()\<close> does
  not throw, the wrapper is detached, whether or not \<^verbatim>\<open>root.unmount()\<close> threw.
\<close>

theorem unmount_never_throws:
  assumes "confirms s k = Some c"
  shows "fst (unmount env k s) = Inr () \<and>
         trace (snd (unmount env k s)) =
           trace s @ [E_delete k, E_root_unmount (root c)] @
           (case root_unmount_throws env of
              Some err \<Rightarrow> [E_warn ''react-confirm: Failed to unmount React root:'' err]
            | None \<Rightarrow> []) @
           [E_remove (wrapper c)] @
           (case remove_throws env of
              Some err \<Rightarrow> [E_warn ''react-confirm: Failed to remove DOM wrapper:'' err]
            | None \<Rightarrow> []) \<and>
         (remove_throws env = None \<longrightarrow> parent_of (snd (unmount env k s)) (wrapper c) = None)"
  using assms by (simp add: unmount_Own)

text \<open>
  Both release steps throw on the mounted dialog; the call returns and logs both warnings.
\<close>

theorem unmount_never_throws_witness:
  "confirms example_mounted ''a'' = Some \<lparr>wrapper = Div 0, root = 0\<rparr> \<and>
   fst (unmount example_throwing_unmount_env ''a'' example_mounted) = Inr () \<and>
   drop 5 (trace (snd (unmount example_throwing_unmount_env ''a'' example_mounted))) =
     [E_delete ''a'', E_root_unmount 0,
      E_warn ''react-confirm: Failed to unmount React root:'' (Thrown ''root gone''),
      E_remove (Div 0),
      E_warn ''react-confirm: Failed to remove DOM wrapper:'' (Thrown ''node gone'')]"
proof -
  have a: "confirms example_mounted ''a'' = Some \<lparr>wrapper = Div 0, root = 0\<rparr>"
    by (simp add: example_mounted_eq)
  have t: "length (trace example_mounted) = 5"
    by (simp add: example_mounted_eq)
  from unmount_never_throws [OF a, of example_throwing_unmount_env] a t
  show ?thesis
    by (simp add: example_throwing_unmount_env_def)
qed

lemma unmount_untracked_releases_nothing:
  assumes "confirms t k = None"
  shows "releases_nothing t (snd (unmount env k t))"
proof (cases "k \<in> set objectPrototypeKeys")
  case True
  with assms show ?thesis
    by (simp add: unmount_Inherited releases_nothing_def)
next
  case False
  with assms show ?thesis
    by (simp add: unmount_Undefined releases_nothing_def)
qed

lemma delete_confirm_eq:
  "snd (delete_confirm k s) = s\<lparr>confirms := (confirms s)(k := None), trace := trace s @ [E_delete k]\<rparr>"
  by (simp add: delete_confirm_def emit_def)

lemma try_root_unmount_eq:
  "try_warn msg (root_unmount env (Own c)) t =
     (Inr (),
      t\<lparr>roots := (case root_unmount_throws env of
                     Some err \<Rightarrow> roots t
                   | None \<Rightarrow> (case roots t (root c) of
                                None \<Rightarrow> roots t
                              | Some (w, st) \<Rightarrow> (roots t)(root c \<mapsto> (w, Unmounted)))),
        trace := trace t @ E_root_unmount (root c) #
                 (case root_unmount_throws env of Some err \<Rightarrow> [E_warn msg err] | None \<Rightarrow> [])\<rparr>)"
  by (simp add: try_warn_def root_unmount_def emit_def Let_def split: option.splits prod.splits)

lemma try_wrapper_remove_eq:
  "try_warn msg (wrapper_remove env (Own c)) t =
     (Inr (),
      t\<lparr>parent_of := (case remove_throws env of
                         Some err \<Rightarrow> parent_of t
                       | None \<Rightarrow> (parent_of t)(wrapper c := None)),
        trace := trace t @ E_remove (wrapper c) #
                 (case remove_throws env of Some err \<Rightarrow> [E_warn msg err] | None \<Rightarrow> [])\<rparr>)"
  by (simp add: try_warn_def wrapper_remove_def emit_def Let_def split: option.splits)

text \<open>
  Claim C5. For a tracked key, \<^verbatim>\<open>unmount\<close> is the deletion of the entry followed by the two
  release steps. The entry is absent in the state \<open>s1\<close> in which \<^verbatim>\<open>root.unmount()\<close> is
  called, in the state \<open>s2\<close> in which \<^verbatim>\<open>wrapper.remove()\<close> is called, and in the final state
  \<open>s3\<close>; deleting it touches no root and no DOM node, and the trace has the deletion before
  either release call. An \<^verbatim>\<open>unmount\<close> of the same key started in any of the three states
  makes no release call and changes no root and no DOM node.
\<close>

theorem unmount_deletes_entry_first:
  assumes "confirms s k = Some c"
  shows "let s1 = snd (delete_confirm k s);
             s2 = snd (try_warn ''react-confirm: Failed to unmount React root:''
                         (root_unmount env (Own c)) s1);
             s3 = snd (try_warn ''react-confirm: Failed to remove DOM wrapper:''
                         (wrapper_remove env (Own c)) s2)
         in unmount env k s = (Inr (), s3) \<and>
            confirms s1 k = None \<and> confirms s2 k = None \<and> confirms s3 k = None \<and>
            roots s1 = roots s \<and> parent_of s1 = parent_of s \<and>
            trace s1 = trace s @ [E_delete k] \<and>
            take (Suc (length (trace s1))) (trace s2) = trace s1 @ [E_root_unmount (root c)] \<and>
            take (Suc (length (trace s2))) (trace s3) = trace s2 @ [E_remove (wrapper c)] \<and>
            releases_nothing s1 (snd (unmount env' k s1)) \<and>
            releases_nothing s2 (snd (unmount env' k s2)) \<and>
            releases_nothing s3 (snd (unmount env' k s3))"
proof -
  let ?s1 = "snd (delete_confirm k s)"
  let ?s2 = "snd (try_warn ''react-confirm: Failed to unmount React root:''
                         (root_unmount env (Own c)) ?s1)"
  let ?s3 = "snd (try_warn ''react-confirm: Failed to remove DOM wrapper:''
                         (wrapper_remove env (Own c)) ?s2)"
  have u: "unmount env k s = (Inr (), ?s3)"
    using assms
    by (simp add: unmount_def get_confirm_def seq_def delete_confirm_def
          try_root_unmount_eq try_wrapper_remove_eq)
  have c1: "confirms ?s1 k = None" by (simp add: delete_confirm_eq)
  have c2: "confirms ?s2 k = None" by (simp add: delete_confirm_eq try_root_unmount_eq)
  have c3: "confirms ?s3 k = None"
    by (simp add: delete_confirm_eq try_root_unmount_eq try_wrapper_remove_eq)
  have f: "roots ?s1 = roots s" "parent_of ?s1 = parent_of s" "trace ?s1 = trace s @ [E_delete k]"
    by (simp_all add: delete_confirm_eq)
  have t2: "take (Suc (length (trace ?s1))) (trace ?s2) = trace ?s1 @ [E_root_unmount (root c)]"
    by (simp add: try_root_unmount_eq)
  have t3: "take (Suc (length (trace ?s2))) (trace ?s3) = trace ?s2 @ [E_remove (wrapper c)]"
    by (simp add: try_wrapper_remove_eq)
  note r = unmount_untracked_releases_nothing [OF c1, of env']
    unmount_untracked_releases_nothing [OF c2, of env']
    unmount_untracked_releases_nothing [OF c3, of env']
  from u c1 c2 c3 f t2 t3 r show ?thesis
    unfolding Let_def by blast
qed

text \<open>
  The dialog mounted under \<open>''a''\<close> is unmounted, then unmounted again.
\<close>

theorem unmount_deletes_entry_first_witness:
  "confirms example_mounted ''a'' = Some \<lparr>wrapper = Div 0, root = 0\<rparr> \<and>
   confirms (snd (delete_confirm ''a'' example_mounted)) ''a'' = None \<and>
   trace (snd (delete_confirm ''a'' example_mounted)) = trace example_mounted @ [E_delete ''a''] \<and>
   fst (unmount example_unmount_env ''a'' example_mounted) = Inr () \<and>
   confirms (snd (unmount example_unmount_env ''a'' example_mounted)) ''a'' = None \<and>
   releases_nothing (snd (unmount example_unmount_env ''a'' example_mounted))
     (snd (unmount example_unmount_env ''a''
        (snd (unmount example_unmount_env ''a'' example_mounted))))"
proof -
  have a: "confirms example_mounted ''a'' = Some \<lparr>wrapper = Div 0, root = 0\<rparr>"
    by (simp add: example_mounted_eq)
  from unmount_deletes_entry_first [OF a, of example_unmount_env example_unmount_env] a
  show ?thesis
    by (simp add: Let_def)
qed

subsection \<open>Mount followed by unmount\<close>

text \<open>
  Claim C6, amended. When the generated key is not tracked before the \<^verbatim>\<open>mount\<close> (as in an empty
  registry), a successful \<^verbatim>\<open>mount\<close> followed by \<^verbatim>\<open>unmount\<close> of the returned key leaves the
  registry as it was before the \<^verbatim>\<open>mount\<close>; the new wrapper is detached when
  \<^verbatim>\<open>wrapper.remove()\<close> does not throw, and the new root is unmounted when
  \<^verbatim>\<open>root.unmount()\<close> does not throw.
\<close>

theorem mount_unmount_roundtrip:
  assumes "mount env C P mountNode s = (Inr k, s1)"
    and "confirms s k = None"
  shows "fst (unmount uenv k s1) = Inr () \<and>
         confirms (snd (unmount uenv k s1)) = confirms s \<and>
         (confirms s = Map.empty \<longrightarrow> confirms (snd (unmount uenv k s1)) = Map.empty) \<and>
         (remove_throws uenv = None \<longrightarrow>
            parent_of (snd (unmount uenv k s1)) (Div (next_node s)) = None) \<and>
         (root_unmount_throws uenv = None \<longrightarrow>
            roots (snd (unmount uenv k s1)) (next_root s) = Some (Div (next_node s), Unmounted))"
proof -
  let ?c = "\<lparr>wrapper = Div (next_node s), root = next_root s\<rparr>"
  from assms(1) have c: "confirms s1 k = Some ?c"
    and cs: "confirms s1 = (confirms s)(k \<mapsto> ?c)"
    and r: "roots s1 (next_root s) = Some (Div (next_node s), Rendered C P)"
    by (auto simp: mount_Inr mount_try_Inr)
  from assms(2) have e: "(confirms s)(k := None) = confirms s"
    by (simp add: fun_upd_idem_iff)
  show ?thesis
    by (simp add: unmount_Own [OF c] cs e r)
qed

text \<open>
  Mount and unmount on a new mounter.
\<close>

theorem mount_unmount_roundtrip_witness:
  "fst (mount (example_env 10) (Component ''Dialog'') (Props ''message'') None
          (createDomTreeMounter None)) = Inr ''a'' \<and>
   confirms (createDomTreeMounter None) ''a'' = None \<and>
   fst (unmount example_unmount_env ''a'' example_mounted) = Inr () \<and>
   confirms (snd (unmount example_unmount_env ''a'' example_mounted)) = Map.empty \<and>
   parent_of (snd (unmount example_unmount_env ''a'' example_mounted)) (Div 0) = None \<and>
   roots (snd (unmount example_unmount_env ''a'' example_mounted)) 0 = Some (Div 0, Unmounted)"
proof -
  let ?C = "Component ''Dialog''" and ?P = "Props ''message''"
  let ?s = "createDomTreeMounter None"
  have a: "mount (example_env 10) ?C ?P None ?s = (Inr ''a'', example_mounted)"
    unfolding example_mounted_def by (simp add: mount_eval)
  have b: "confirms ?s ''a'' = None"
    by (simp add: createDomTreeMounter_def)
  have i: "confirms ?s = Map.empty" "next_node ?s = 0" "next_root ?s = 0"
    by (simp_all add: createDomTreeMounter_def)
  have u: "remove_throws example_unmount_env = None" "root_unmount_throws example_unmount_env = None"
    by (simp_all add: example_unmount_env_def)
  from a have f: "fst (mount (example_env 10) ?C ?P None ?s) = Inr ''a''"
    by simp
  from mount_unmount_roundtrip [OF a b, of example_unmount_env] b f
  show ?thesis
    by (simp add: i u)
qed

text \<open>
  Claim C6 as stated fails when the draw repeats: with \<open>''a''\<close> tracked, a second \<^verbatim>\<open>mount\<close>
  that draws 10 again returns \<open>''a''\<close> and overwrites the entry, and the \<^verbatim>\<open>unmount\<close> of
  \<open>''a''\<close> then leaves a registry without the entry it had before the \<^verbatim>\<open>mount\<close>; the first
  wrapper \<open>Div 0\<close> stays attached.
\<close>

theorem mount_unmount_roundtrip_counterexample:
  "confirms example_mounted ''a'' = Some \<lparr>wrapper = Div 0, root = 0\<rparr> \<and>
   fst (mount (example_env 10) (Component ''Other'') (Props ''again'') None example_mounted)
     = Inr ''a'' \<and>
   confirms
     (snd (unmount example_unmount_env ''a''
        (snd (mount (example_env 10) (Component ''Other'') (Props ''again'') None
           example_mounted)))) ''a'' = None \<and>
   confirms
     (snd (unmount example_unmount_env ''a''
        (snd (mount (example_env 10) (Component ''Other'') (Props ''again'') None
           example_mounted)))) \<noteq> confirms example_mounted \<and>
   parent_of
     (snd (unmount example_unmount_env ''a''
        (snd (mount (example_env 10) (Component ''Other'') (Props ''again'') None
           example_mounted)))) (Div 0) = Some (Elem 0)"
proof -
  let ?m = "mount (example_env 10) (Component ''Other'') (Props ''again'') None example_mounted"
  have a: "confirms example_mounted ''a'' = Some \<lparr>wrapper = Div 0, root = 0\<rparr>"
    by (simp add: example_mounted_eq)
  have m: "?m = (Inr ''a'', snd ?m)"
    by (simp add: example_mounted_eq mount_eval)
  have c: "confirms (snd ?m) ''a'' = Some \<lparr>wrapper = Div 1, root = 1\<rparr>"
    by (simp add: example_mounted_eq mount_eval)
  have q: "parent_of (snd ?m) (Div 0) = Some (Elem 0)"
    by (simp add: example_mounted_eq mount_eval)
  have n: "confirms (snd (unmount example_unmount_env ''a'' (snd ?m))) ''a'' = None"
    by (simp add: unmount_Own [OF c])
  have d: "confirms (snd (unmount example_unmount_env ''a'' (snd ?m))) \<noteq> confirms example_mounted"
  proof
    assume "confirms (snd (unmount example_unmount_env ''a'' (snd ?m))) = confirms example_mounted"
    then have "confirms (snd (unmount example_unmount_env ''a'' (snd ?m))) ''a''
                 = confirms example_mounted ''a''"
      by simp
    with n a show False by simp
  qed
  have r: "parent_of (snd (unmount example_unmount_env ''a'' (snd ?m))) (Div 0) = Some (Elem 0)"
    using q by (simp add: unmount_Own [OF c] example_unmount_env_def)
  from m have f: "fst ?m = Inr ''a''"
    by (rule arg_cong [where f = fst, THEN trans]) simp
  from a f n d r show ?thesis by blast
qed

subsection \<open>Keys over a sequence of calls\<close>

text \<open>
  Runs of calls on the returned object.
\<close>

lemma run_Nil: "run s [] = s"
  by (simp add: run_def)

lemma run_Cons: "run s (x # ops) = run (step s x) ops"
  by (simp add: run_def)

lemma run_append: "run s (xs @ ys) = run (run s xs) ys"
  by (simp add: run_def)

lemma draws_append: "draws (xs @ ys) = draws xs @ draws ys"
  by (induction xs rule: draws.induct) simp_all

text \<open>
  In every case \<^verbatim>\<open>unmount\<close> leaves the registry without the key and otherwise as it was.
\<close>

lemma unmount_confirms: "confirms (snd (unmount env k s)) = (confirms s)(k := None)"
proof (cases "confirms s k")
  case None
  then have e: "(confirms s)(k := None) = confirms s"
    by (simp add: fun_upd_idem_iff)
  show ?thesis
  proof (cases "k \<in> set objectPrototypeKeys")
    case True
    with None e show ?thesis by (simp add: unmount_Inherited)
  next
    case False
    with None e show ?thesis by (simp add: unmount_Undefined)
  qed
next
  case (Some c)
  then show ?thesis by (simp add: unmount_Own)
qed

text \<open>
  \<^verbatim>\<open>mount\<close> changes the registry at the generated key only.
\<close>

lemma mount_confirms:
  assumes "mount env C P mountNode s = (res, s')"
  shows "confirms s' = (confirms s)(generateKey (draw env) := None) \<or>
         confirms s' = (confirms s)(generateKey (draw env) \<mapsto>
                          \<lparr>wrapper = Div (next_node s), root = next_root s\<rparr>)"
proof (cases res)
  case (Inl err)
  with assms obtain s1 where t: "mount_try env C P mountNode (generateKey (draw env)) s = (Inl err, s1)"
    and s': "s' = s1\<lparr>confirms := (confirms s1)(generateKey (draw env) := None),
              trace := trace s1 @ [E_delete (generateKey (draw env))]\<rparr>"
    by (auto simp: mount_Inl)
  from mount_try_frame [OF t] s' show ?thesis by auto
next
  case (Inr k)
  with assms show ?thesis by (auto simp: mount_Inr mount_try_Inr)
qed

text \<open>
  Every tracked key is the rendering of a draw made so far.
\<close>

lemma dom_step: "dom (confirms (step s x)) \<subseteq> dom (confirms s) \<union> generateKey ` set (draws [x])"
proof (cases x)
  case (Mount env C P mountNode)
  obtain res s' where m: "mount env C P mountNode s = (res, s')"
    by (cases "mount env C P mountNode s")
  from mount_confirms [OF m] m Mount show ?thesis by auto
next
  case (Unmount env k)
  then show ?thesis by (auto simp: unmount_confirms)
next
  case (SetOption name cb)
  then show ?thesis by simp
qed

lemma dom_run: "dom (confirms (run s ops)) \<subseteq> dom (confirms s) \<union> generateKey ` set (draws ops)"
proof (induction ops arbitrary: s)
  case Nil
  show ?case by (simp add: run_Nil)
next
  case (Cons x ops)
  have "draws (x # ops) = draws [x] @ draws ops"
    using draws_append [of "[x]" ops] by simp
  with Cons [of "step s x"] dom_step [of s x] show ?case
    by (auto simp: run_Cons)
qed

lemma dom_run_init:
  "confirms (run (createDomTreeMounter dflt) ops) k \<noteq> None \<Longrightarrow> \<exists>n \<in> set (draws ops). k = generateKey n"
  using dom_run [of "createDomTreeMounter dflt" ops]
  by (auto simp: createDomTreeMounter_def)

text \<open>
  Claim C1, amended. The registry is a map, so it holds at most one entry per key. In a
  sequence of calls on a new mounter whose draws are pairwise distinct, the key a \<^verbatim>\<open>mount\<close>
  returns is the rendering of its draw and is not tracked when the call starts, and a key
  that was tracked and then unmounted is tracked at no later point of the sequence.
\<close>

theorem distinct_draws_give_fresh_keys:
  assumes "distinct (draws ops)"
  shows "(\<forall>pre env C P mountNode post k.
            ops = pre @ Mount env C P mountNode # post \<longrightarrow>
            fst (mount env C P mountNode (run (createDomTreeMounter dflt) pre)) = Inr k \<longrightarrow>
            k = generateKey (draw env) \<and> confirms (run (createDomTreeMounter dflt) pre) k = None) \<and>
         (\<forall>pre env k mid post.
            ops = pre @ Unmount env k # mid @ post \<longrightarrow>
            confirms (run (createDomTreeMounter dflt) pre) k \<noteq> None \<longrightarrow>
            confirms (run (createDomTreeMounter dflt) (pre @ Unmount env k # mid)) k = None)"
proof (intro conjI allI impI)
  fix pre env C P mountNode post k
  assume ops: "ops = pre @ Mount env C P mountNode # post"
    and m: "fst (mount env C P mountNode (run (createDomTreeMounter dflt) pre)) = Inr k"
  from m show k: "k = generateKey (draw env)"
    by (cases "mount env C P mountNode (run (createDomTreeMounter dflt) pre)")
       (simp add: mount_Inr)
  show "confirms (run (createDomTreeMounter dflt) pre) k = None"
  proof (rule ccontr)
    assume "confirms (run (createDomTreeMounter dflt) pre) k \<noteq> None"
    from dom_run_init [OF this] obtain n where n: "n \<in> set (draws pre)" and "k = generateKey n"
      by blast
    with k have "n = draw env" by (simp add: generateKey_inj)
    with n assms ops show False by (simp add: draws_append)
  qed
next
  fix pre env k mid post
  assume ops: "ops = pre @ Unmount env k # mid @ post"
    and t: "confirms (run (createDomTreeMounter dflt) pre) k \<noteq> None"
  let ?s1 = "step (run (createDomTreeMounter dflt) pre) (Unmount env k)"
  from dom_run_init [OF t] obtain n where n: "n \<in> set (draws pre)" and k: "k = generateKey n"
    by blast
  have r: "run (createDomTreeMounter dflt) (pre @ Unmount env k # mid) = run ?s1 mid"
    by (simp add: run_append run_Cons)
  have u: "confirms ?s1 k = None" by (simp add: unmount_confirms)
  show "confirms (run (createDomTreeMounter dflt) (pre @ Unmount env k # mid)) k = None"
  proof (rule ccontr)
    assume "confirms (run (createDomTreeMounter dflt) (pre @ Unmount env k # mid)) k \<noteq> None"
    with r have "k \<in> dom (confirms (run ?s1 mid))" by auto
    with dom_run [of ?s1 mid] u have "k \<in> generateKey ` set (draws mid)" by auto
    then obtain j where j: "j \<in> set (draws mid)" and "k = generateKey j" by blast
    with k have "j = n" by (simp add: generateKey_inj)
    with j n assms ops show False by (auto simp: draws_append)
  qed
qed

lemma run_example_mount:
  "run (createDomTreeMounter None)
     [Mount (example_env 10) (Component ''Dialog'') (Props ''message'') None] = example_mounted"
  by (simp add: run_Cons run_Nil example_mounted_def)

text \<open>
  Mount with draw 10, unmount \<open>''a''\<close>, mount with draw 11.
\<close>

theorem distinct_draws_give_fresh_keys_witness:
  "distinct (draws example_ops) \<and>
   fst (mount (example_env 10) (Component ''Dialog'') (Props ''message'') None
          (run (createDomTreeMounter None) [])) = Inr ''a'' \<and>
   confirms (run (createDomTreeMounter None) []) ''a'' = None \<and>
   confirms (run (createDomTreeMounter None)
               [Mount (example_env 10) (Component ''Dialog'') (Props ''message'') None]) ''a''
     \<noteq> None \<and>
   confirms (run (createDomTreeMounter None) example_ops) ''a'' = None"
proof -
  let ?M = "Mount (example_env 10) (Component ''Dialog'') (Props ''message'') None"
  let ?U = "Unmount example_unmount_env ''a''"
  let ?N = "Mount (example_env 11) (Component ''Dialog'') (Props ''message'') None"
  have d: "distinct (draws example_ops)"
    by (simp add: example_ops_def example_env_def)
  note t = distinct_draws_give_fresh_keys [OF d, of None]
  have m: "fst (mount (example_env 10) (Component ''Dialog'') (Props ''message'') None
                  (run (createDomTreeMounter None) [])) = Inr ''a''"
    by (simp add: run_Nil mount_eval)
  have e1: "example_ops = [] @ ?M # [?U, ?N]"
    by (simp add: example_ops_def)
  from t e1 m have f: "confirms (run (createDomTreeMounter None) []) ''a'' = None"
    by blast
  have e2: "example_ops = [?M] @ ?U # [?N] @ []"
    by (simp add: example_ops_def)
  have tr: "confirms (run (createDomTreeMounter None) [?M]) ''a'' \<noteq> None"
    by (simp add: run_example_mount example_mounted_eq)
  from t e2 tr have "confirms (run (createDomTreeMounter None) ([?M] @ ?U # [?N])) ''a'' = None"
    by blast
  then have g: "confirms (run (createDomTreeMounter None) example_ops) ''a'' = None"
    by (simp add: example_ops_def)
  from d m f tr g show ?thesis by blast
qed

lemma mount_example_env:
  assumes "callbacks_mounted s = None"
  shows "mount (example_env n) C P mountNode s =
           (Inr (generateKey n), snd (mount (example_env n) C P mountNode s))"
  using assms
  by (simp add: mount_def mount_try_def getParentNode_def call_mounted_def emit_def Let_def
        example_env_def split: option.splits)

lemma mount_success_entry:
  "mount env C P mountNode s = (Inr k, s') \<Longrightarrow>
     confirms s' k = Some \<lparr>wrapper = Div (next_node s), root = next_root s\<rparr>"
  by (auto simp: mount_Inr mount_try_Inr)

text \<open>
  Claim C1 as stated fails when a draw repeats, since \<^verbatim>\<open>generateKey\<close> does not look at the
  registry: with \<open>''a''\<close> tracked, a \<^verbatim>\<open>mount\<close> that draws 10 again returns \<open>''a''\<close>; and after
  \<open>''a''\<close> was unmounted, a \<^verbatim>\<open>mount\<close> that draws 10 tracks \<open>''a''\<close> again.
\<close>

theorem repeated_draw_counterexample:
  "confirms example_mounted ''a'' = Some \<lparr>wrapper = Div 0, root = 0\<rparr> \<and>
   fst (mount (example_env 10) (Component ''Dialog'') (Props ''message'') None example_mounted)
     = Inr ''a'' \<and>
   confirms (snd (unmount example_unmount_env ''a'' example_mounted)) ''a'' = None \<and>
   fst (mount (example_env 10) (Component ''Dialog'') (Props ''message'') None
          (snd (unmount example_unmount_env ''a'' example_mounted))) = Inr ''a'' \<and>
   confirms (snd (mount (example_env 10) (Component ''Dialog'') (Props ''message'') None
          (snd (unmount example_unmount_env ''a'' example_mounted)))) ''a''
     = Some \<lparr>wrapper = Div 1, root = 1\<rparr>"
proof -
  let ?C = "Component ''Dialog''" and ?P = "Props ''message''"
  have a: "confirms example_mounted ''a'' = Some \<lparr>wrapper = Div 0, root = 0\<rparr>"
    by (simp add: example_mounted_eq)
  have b: "fst (mount (example_env 10) ?C ?P None example_mounted) = Inr ''a''"
    by (simp add: example_mounted_eq mount_eval)
  let ?u = "snd (unmount example_unmount_env ''a'' example_mounted)"
  have u: "?u = example_mounted\<lparr>confirms := Map.empty,
              roots := [0 \<mapsto> (Div 0, Unmounted)], parent_of := Map.empty,
              trace := trace example_mounted @ [E_delete ''a'', E_root_unmount 0, E_remove (Div 0)]\<rparr>"
    by (simp add: unmount_Own [OF a] example_unmount_env_def) (simp add: example_mounted_eq)
  have c: "confirms ?u ''a'' = None"
    by (subst u) simp
  have cb: "callbacks_mounted ?u = None"
    by (subst u) (simp add: example_mounted_eq)
  have k: "generateKey 10 = ''a''"
    by (simp add: generateKey_def toString16_small hex_digit_def)
  have m: "mount (example_env 10) ?C ?P None ?u = (Inr ''a'', snd (mount (example_env 10) ?C ?P None ?u))"
    using mount_example_env [OF cb, of 10 ?C ?P None] by (simp add: k)
  from m have d: "fst (mount (example_env 10) ?C ?P None ?u) = Inr ''a''"
    by (rule arg_cong [where f = fst, THEN trans]) simp
  have n: "next_node ?u = 1" "next_root ?u = 1"
    by (subst u, simp add: example_mounted_eq)+
  have e: "confirms (snd (mount (example_env 10) ?C ?P None ?u)) ''a''
                    = Some \<lparr>wrapper = Div 1, root = 1\<rparr>"
    using mount_success_entry [OF m] by (simp add: n)
  from a b c d e show ?thesis by blast
qed

subsection \<open>The mounted callback\<close>

text \<open>
  What any \<^verbatim>\<open>mount\<close>, failed or not, does to the registry, the counters and the callback.
\<close>

lemma mount_effect:
  assumes "mount env C P mountNode s = (res, s')"
  shows "next_node s \<le> next_node s' \<and> next_root s \<le> next_root s' \<and>
         callbacks_mounted s' = callbacks_mounted s \<and>
         (confirms s' = (confirms s)(generateKey (draw env) := None) \<or>
          confirms s' = (confirms s)(generateKey (draw env) \<mapsto>
                           \<lparr>wrapper = Div (next_node s), root = next_root s\<rparr>) \<and>
          next_node s < next_node s' \<and> next_root s < next_root s')"
proof (cases res)
  case (Inl err)
  with assms obtain s1 where t: "mount_try env C P mountNode (generateKey (draw env)) s = (Inl err, s1)"
    and s': "s' = s1\<lparr>confirms := (confirms s1)(generateKey (draw env) := None),
              trace := trace s1 @ [E_delete (generateKey (draw env))]\<rparr>"
    by (auto simp: mount_Inl)
  from mount_try_frame [OF t] s' show ?thesis by auto
next
  case (Inr k)
  with assms show ?thesis by (auto simp: mount_Inr mount_try_Inr)
qed

lemma unmount_callbacks:
  "callbacks_mounted (snd (unmount env k s)) = callbacks_mounted s \<and>
   next_node (snd (unmount env k s)) = next_node s \<and>
   next_root (snd (unmount env k s)) = next_root s"
proof (cases "confirms s k")
  case None
  then show ?thesis
    by (cases "k \<in> set objectPrototypeKeys") (simp_all add: unmount_Inherited unmount_Undefined)
next
  case (Some c)
  then show ?thesis by (simp add: unmount_Own)
qed

lemma unmount_trace:
  "\<exists>ws. trace (snd (unmount env k s)) = trace s @ ws \<and> E_mounted \<notin> set ws"
proof (cases "confirms s k")
  case None
  then show ?thesis
    by (cases "k \<in> set objectPrototypeKeys") (simp_all add: unmount_Inherited unmount_Undefined)
next
  case (Some c)
  then show ?thesis by (simp add: unmount_Own split: option.splits)
qed

lemma mount_trace:
  assumes "mount env C P mountNode s = (res, s')" and "callbacks_mounted s = None"
  shows "\<exists>ws. trace s' = trace s @ ws \<and> E_mounted \<notin> set ws"
  using assms
  by (auto simp: mount_def mount_try_def call_mounted_def emit_def Let_def
           split: sum.splits option.splits prod.splits)

lemma step_callbacks: "callbacks_mounted (step s x) = callbacks_mounted s"
proof (cases x)
  case (Mount env C P mountNode)
  obtain res s' where m: "mount env C P mountNode s = (res, s')"
    by (cases "mount env C P mountNode s")
  from mount_effect [OF m] m Mount show ?thesis by simp
next
  case (Unmount env k)
  then show ?thesis by (simp add: unmount_callbacks)
next
  case (SetOption name cb)
  then show ?thesis by simp
qed

lemma step_no_mounted:
  assumes "callbacks_mounted s = None" and "E_mounted \<notin> set (trace s)"
  shows "E_mounted \<notin> set (trace (step s x))"
proof (cases x)
  case (Mount env C P mountNode)
  obtain res s' where m: "mount env C P mountNode s = (res, s')"
    by (cases "mount env C P mountNode s")
  from mount_trace [OF m assms(1)] assms(2) m Mount show ?thesis by auto
next
  case (Unmount env k)
  with unmount_trace [of env k s] assms(2) show ?thesis by auto
next
  case (SetOption name cb)
  with assms(2) show ?thesis by simp
qed

lemma run_no_mounted:
  "callbacks_mounted s = None \<Longrightarrow> E_mounted \<notin> set (trace s) \<Longrightarrow>
     callbacks_mounted (run s ops) = None \<and> E_mounted \<notin> set (trace (run s ops))"
proof (induction ops arbitrary: s)
  case Nil
  then show ?case by (simp add: run_Nil)
next
  case (Cons x ops)
  from Cons.prems have "callbacks_mounted (step s x) = None"
    by (simp add: step_callbacks)
  moreover from Cons.prems have "E_mounted \<notin> set (trace (step s x))"
    by (rule step_no_mounted)
  ultimately show ?case
    using Cons.IH [of "step s x"] by (simp add: run_Cons)
qed

text \<open>
  Claim C10. \<^verbatim>\<open>callbacks\<close> is created empty and no call on the returned object writes to
  it: after any sequence of \<^verbatim>\<open>mount\<close>, \<^verbatim>\<open>unmount\<close> and writes to \<^verbatim>\<open>options\<close>,
  \<^verbatim>\<open>callbacks.mounted\<close> is undefined and no \<^verbatim>\<open>mounted\<close> callback was ever called. The
  returned \<^verbatim>\<open>options\<close> is empty, and storing a callback in it as \<^verbatim>\<open>options.mounted\<close> changes
  nothing of this.
\<close>

theorem mounted_callback_never_called:
  "callbacks_mounted (run (createDomTreeMounter dflt) ops) = None \<and>
   E_mounted \<notin> set (trace (run (createDomTreeMounter dflt) ops)) \<and>
   options (createDomTreeMounter dflt) = Map.empty \<and>
   callbacks_mounted
     (run (createDomTreeMounter dflt) (SetOption ''mounted'' cb # ops)) = None \<and>
   E_mounted \<notin> set (trace (run (createDomTreeMounter dflt) (SetOption ''mounted'' cb # ops)))"
proof -
  have i: "callbacks_mounted (createDomTreeMounter dflt) = None"
    "E_mounted \<notin> set (trace (createDomTreeMounter dflt))"
    "options (createDomTreeMounter dflt) = Map.empty"
    by (simp_all add: createDomTreeMounter_def)
  from run_no_mounted [OF i(1) i(2)] i(3) show ?thesis by blast
qed

subsection \<open>Unmounting one key leaves the others\<close>

text \<open>
  \<open>entries_separate\<close> holds of a new mounter and is kept by every call.
\<close>

lemma entries_separate_init: "entries_separate (createDomTreeMounter dflt)"
  by (simp add: entries_separate_def createDomTreeMounter_def)

lemma entries_separate_delete:
  assumes "entries_separate s" and "confirms s' = (confirms s)(k := None)"
    and "next_node s \<le> next_node s'" and "next_root s \<le> next_root s'"
  shows "entries_separate s'"
proof -
  have sub: "\<And>j c. confirms s' j = Some c \<Longrightarrow> confirms s j = Some c"
    using assms(2) by (auto split: if_splits)
  have a: "\<And>j c. confirms s' j = Some c \<Longrightarrow>
             (\<exists>i<next_node s'. wrapper c = Div i) \<and> root c < next_root s'"
  proof -
    fix j c assume "confirms s' j = Some c"
    then have "confirms s j = Some c" by (rule sub)
    with assms(1) obtain i where "i < next_node s" "wrapper c = Div i" "root c < next_root s"
      unfolding entries_separate_def by blast
    with assms(3,4) show "(\<exists>i<next_node s'. wrapper c = Div i) \<and> root c < next_root s'"
      by (auto intro: less_le_trans)
  qed
  have b: "\<And>j j' c c'. confirms s' j = Some c \<Longrightarrow> confirms s' j' = Some c' \<Longrightarrow> j \<noteq> j' \<Longrightarrow>
             wrapper c \<noteq> wrapper c' \<and> root c \<noteq> root c'"
  proof -
    fix j j' c c'
    assume "confirms s' j = Some c" "confirms s' j' = Some c'" "j \<noteq> j'"
    then have "confirms s j = Some c" "confirms s j' = Some c'" "j \<noteq> j'"
      by (auto dest: sub)
    with assms(1) show "wrapper c \<noteq> wrapper c' \<and> root c \<noteq> root c'"
      unfolding entries_separate_def by blast
  qed
  from a b show ?thesis
    unfolding entries_separate_def by blast
qed

lemma entries_separate_add:
  assumes "entries_separate s"
    and "confirms s' = (confirms s)(k \<mapsto> \<lparr>wrapper = Div (next_node s), root = next_root s\<rparr>)"
    and "next_node s < next_node s'" and "next_root s < next_root s'"
  shows "entries_separate s'"
proof -
  have old: "\<And>q d. confirms s q = Some d \<Longrightarrow>
               (\<exists>i<next_node s. wrapper d = Div i) \<and> root d < next_root s"
    using assms(1) unfolding entries_separate_def by blast
  have a: "\<And>j c. confirms s' j = Some c \<Longrightarrow>
             (\<exists>i<next_node s'. wrapper c = Div i) \<and> root c < next_root s'"
  proof -
    fix j c assume j: "confirms s' j = Some c"
    show "(\<exists>i<next_node s'. wrapper c = Div i) \<and> root c < next_root s'"
    proof (cases "j = k")
      case True
      with j assms(2) have "c = \<lparr>wrapper = Div (next_node s), root = next_root s\<rparr>" by simp
      with assms(3,4) show ?thesis by simp
    next
      case False
      with j assms(2) have "confirms s j = Some c" by simp
      from old [OF this] assms(3,4) show ?thesis by (auto intro: less_trans)
    qed
  qed
  have b: "\<And>j j' c c'. confirms s' j = Some c \<Longrightarrow> confirms s' j' = Some c' \<Longrightarrow> j \<noteq> j' \<Longrightarrow>
             wrapper c \<noteq> wrapper c' \<and> root c \<noteq> root c'"
  proof -
    fix j j' c c'
    assume j: "confirms s' j = Some c" and j': "confirms s' j' = Some c'" and ne: "j \<noteq> j'"
    show "wrapper c \<noteq> wrapper c' \<and> root c \<noteq> root c'"
    proof (cases "j = k")
      case True
      with j assms(2) have c: "c = \<lparr>wrapper = Div (next_node s), root = next_root s\<rparr>" by simp
      from True ne j' assms(2) have "confirms s j' = Some c'" by simp
      from old [OF this] c show ?thesis by auto
    next
      case False
      with j assms(2) have cj: "confirms s j = Some c" by simp
      show ?thesis
      proof (cases "j' = k")
        case True
        with j' assms(2) have c': "c' = \<lparr>wrapper = Div (next_node s), root = next_root s\<rparr>"
          by simp
        from old [OF cj] c' show ?thesis by auto
      next
        case False
        with j' assms(2) have "confirms s j' = Some c'" by simp
        with cj ne assms(1) show ?thesis
          unfolding entries_separate_def by blast
      qed
    qed
  qed
  from a b show ?thesis
    unfolding entries_separate_def by blast
qed

lemma entries_separate_step:
  assumes "entries_separate s"
  shows "entries_separate (step s x)"
proof (cases x)
  case (Mount env C P mountNode)
  obtain res s' where m: "mount env C P mountNode s = (res, s')"
    by (cases "mount env C P mountNode s")
  note e = mount_effect [OF m]
  note n1 = e [THEN conjunct1]
  note n2 = e [THEN conjunct2, THEN conjunct1]
  note d = e [THEN conjunct2, THEN conjunct2, THEN conjunct2]
  from d have "entries_separate s'"
  proof
    assume "confirms s' = (confirms s)(generateKey (draw env) := None)"
    with assms show ?thesis using n1 n2 by (rule entries_separate_delete)
  next
    assume a: "confirms s' = (confirms s)(generateKey (draw env) \<mapsto>
                           \<lparr>wrapper = Div (next_node s), root = next_root s\<rparr>) \<and>
            next_node s < next_node s' \<and> next_root s < next_root s'"
    from assms a [THEN conjunct1] a [THEN conjunct2, THEN conjunct1]
      a [THEN conjunct2, THEN conjunct2]
    show ?thesis by (rule entries_separate_add)
  qed
  with m Mount show ?thesis by simp
next
  case (Unmount env k)
  have c: "confirms (snd (unmount env k s)) = (confirms s)(k := None)"
    by (rule unmount_confirms)
  have n: "next_node s \<le> next_node (snd (unmount env k s))"
    "next_root s \<le> next_root (snd (unmount env k s))"
    by (simp_all add: unmount_callbacks)
  from assms c n have "entries_separate (snd (unmount env k s))"
    by (rule entries_separate_delete)
  with Unmount show ?thesis by simp
next
  case (SetOption name cb)
  have "entries_separate (s\<lparr>options := (options s)(name \<mapsto> cb)\<rparr>)"
    using assms by (simp add: entries_separate_def)
  with SetOption show ?thesis by simp
qed

lemma entries_separate_run: "entries_separate s \<Longrightarrow> entries_separate (run s ops)"
proof (induction ops arbitrary: s)
  case Nil
  then show ?case by (simp only: run_Nil)
next
  case (Cons x ops)
  from Cons.prems have "entries_separate (step s x)"
    by (rule entries_separate_step)
  then have "entries_separate (run (step s x) ops)"
    by (rule Cons.IH)
  then show ?case by (simp only: run_Cons)
qed

text \<open>
  Claim C8. In every state a mounter can reach, \<^verbatim>\<open>unmount\<close> of one key leaves the entry of
  every other tracked key in the registry, and leaves the root and the parent link of the
  wrapper of that entry as they were.
\<close>

theorem unmount_frame:
  assumes "s = run (createDomTreeMounter dflt) ops"
    and "confirms s k' = Some c'" and "k' \<noteq> k"
  shows "confirms (snd (unmount env k s)) k' = Some c' \<and>
         roots (snd (unmount env k s)) (root c') = roots s (root c') \<and>
         parent_of (snd (unmount env k s)) (wrapper c') = parent_of s (wrapper c')"
proof (cases "confirms s k")
  case None
  with assms(2) show ?thesis
    by (cases "k \<in> set objectPrototypeKeys") (simp_all add: unmount_Inherited unmount_Undefined)
next
  case (Some c)
  from assms(1) have "entries_separate s"
    by (simp add: entries_separate_run entries_separate_init)
  with Some assms(2,3) have "wrapper c \<noteq> wrapper c'" "root c \<noteq> root c'"
    unfolding entries_separate_def by blast+
  with Some assms(2,3) show ?thesis
    by (simp add: unmount_Own split: option.splits)
qed

lemma run_example_two_ops:
  "confirms (run (createDomTreeMounter None) example_two_ops) ''b''
     = Some \<lparr>wrapper = Div 1, root = 1\<rparr> \<and>
   roots (run (createDomTreeMounter None) example_two_ops) 1
     = Some (Div 1, Rendered (Component ''Dialog'') (Props ''second'')) \<and>
   parent_of (run (createDomTreeMounter None) example_two_ops) (Div 1) = Some (Elem 0)"
  by (simp add: example_two_ops_def run_Cons run_Nil mount_eval)

text \<open>
  Two dialogs are mounted under \<open>''a''\<close> and \<open>''b''\<close>; unmounting \<open>''a''\<close> leaves \<open>''b''\<close>.
\<close>

theorem unmount_frame_witness:
  "confirms (run (createDomTreeMounter None) example_two_ops) ''b''
     = Some \<lparr>wrapper = Div 1, root = 1\<rparr> \<and>
   ''b'' \<noteq> ''a'' \<and>
   confirms (snd (unmount example_unmount_env ''a''
               (run (createDomTreeMounter None) example_two_ops))) ''b''
     = Some \<lparr>wrapper = Div 1, root = 1\<rparr> \<and>
   roots (snd (unmount example_unmount_env ''a''
               (run (createDomTreeMounter None) example_two_ops))) 1
     = Some (Div 1, Rendered (Component ''Dialog'') (Props ''second'')) \<and>
   parent_of (snd (unmount example_unmount_env ''a''
               (run (createDomTreeMounter None) example_two_ops))) (Div 1)
     = Some (Elem 0)"
proof -
  let ?s = "run (createDomTreeMounter None) example_two_ops"
  have b: "confirms ?s ''b'' = Some \<lparr>wrapper = Div 1, root = 1\<rparr>"
    and r: "roots ?s 1 = Some (Div 1, Rendered (Component ''Dialog'') (Props ''second''))"
    and p: "parent_of ?s (Div 1) = Some (Elem 0)"
    using run_example_two_ops by blast+
  have ne: "''b'' \<noteq> ''a''" by simp
  from unmount_frame [OF refl b ne, of example_unmount_env] b ne r p
  show ?thesis by simp
qed

end
